theory Spec2Isabelle
  imports Main
begin

section \<open>JavaScript values\<close>

text \<open>
  The virtual DOM of \<^verbatim>\<open>app.js\<close> is made of plain JavaScript values. The model keeps the
  kinds of value the code distinguishes with \<^verbatim>\<open>typeof\<close>, \<^verbatim>\<open>===\<close> and property reads:
  \<^item> \<^verbatim>\<open>undefined\<close>, \<^verbatim>\<open>null\<close>, booleans;
  \<^item> strings and numbers, the two kinds of text node; a number is an integer or \<^verbatim>\<open>NaN\<close>, the
    one value that is not \<^verbatim>\<open>===\<close> to itself (fractions and the infinities compare and print
    as the integers do, and are left out);
  \<^item> functions, with their identity and their declared number of parameters;
  \<^item> arrays, with their identity and their elements;
  \<^item> the objects \<^verbatim>\<open>{ type, props }\<close> built by \<^verbatim>\<open>createElement\<close>, with their identity, the
    tag and the \<^verbatim>\<open>props\<close> object (absent when the field is \<^verbatim>\<open>undefined\<close>).
  An object's properties are the list of its own enumerable keys in enumeration order, each
  with its value; keys are distinct. Identities are addresses: two objects are the same
  object exactly when their addresses are equal.
\<close>

datatype scalar = TextS string | NumS int | NaN

datatype jsval =
    Undefined
  | Null
  | Bool bool
  | Leaf scalar
  | Fun nat nat
  | Arr nat "jsval list"
  | Elem nat string "(string \<times> jsval) list option"

type_synonym props = "(string \<times> jsval) list"

datatype error = TypeError | HierarchyRequestError | InvalidCharacterError

text \<open>\<^verbatim>\<open>typeof v\<close>.\<close>

fun typeof :: "jsval \<Rightarrow> string" where
  "typeof Undefined = ''undefined''"
| "typeof Null = ''object''"
| "typeof (Bool b) = ''boolean''"
| "typeof (Leaf (TextS s)) = ''string''"
| "typeof (Leaf (NumS n)) = ''number''"
| "typeof (Leaf NaN) = ''number''"
| "typeof (Fun a n) = ''function''"
| "typeof (Arr a xs) = ''object''"
| "typeof (Elem a t ps) = ''object''"

text \<open>\<^verbatim>\<open>a === b\<close>: primitives by value, except that \<^verbatim>\<open>NaN\<close> equals nothing; objects by
  identity.\<close>

fun strict_eq :: "jsval \<Rightarrow> jsval \<Rightarrow> bool" where
  "strict_eq Undefined Undefined = True"
| "strict_eq Null Null = True"
| "strict_eq (Bool a) (Bool b) = (a = b)"
| "strict_eq (Leaf a) (Leaf b) = (a = b \<and> a \<noteq> NaN)"
| "strict_eq (Fun a m) (Fun b n) = (a = b)"
| "strict_eq (Arr a xs) (Arr b ys) = (a = b)"
| "strict_eq (Elem a s ps) (Elem b t qs) = (a = b)"
| "strict_eq _ _ = False"

text \<open>The values that count as true in \<^verbatim>\<open>a || b\<close> and \<^verbatim>\<open>if (a)\<close>.\<close>

fun truthy :: "jsval \<Rightarrow> bool" where
  "truthy Undefined = False"
| "truthy Null = False"
| "truthy (Bool b) = b"
| "truthy (Leaf (TextS s)) = (s \<noteq> [])"
| "truthy (Leaf (NumS n)) = (n \<noteq> 0)"
| "truthy (Leaf NaN) = False"
| "truthy _ = True"

text \<open>\<^verbatim>\<open>obj[key]\<close>, \<^verbatim>\<open>key in obj\<close> and \<^verbatim>\<open>obj[key] = v\<close> on a property list. A new key goes
  to the end, an existing key keeps its place. Only own keys are looked at: no attribute
  bears the name of a member of \<^verbatim>\<open>Object.prototype\<close>.\<close>

fun prop_get :: "props \<Rightarrow> string \<Rightarrow> jsval" where
  "prop_get [] k = Undefined"
| "prop_get (p # ps) k = (if fst p = k then snd p else prop_get ps k)"

fun prop_in :: "string \<Rightarrow> props \<Rightarrow> bool" where
  "prop_in k [] = False"
| "prop_in k (p # ps) = (fst p = k \<or> prop_in k ps)"

fun prop_set :: "props \<Rightarrow> string \<Rightarrow> jsval \<Rightarrow> props" where
  "prop_set [] k v = [(k, v)]"
| "prop_set (p # ps) k v = (if fst p = k then (k, v) # ps else p # prop_set ps k v)"

text \<open>\<^verbatim>\<open>v.type\<close> and \<^verbatim>\<open>v.props\<close>. Reading a property of \<^verbatim>\<open>null\<close> or \<^verbatim>\<open>undefined\<close> throws;
  strings, numbers, booleans, functions and arrays have neither property, and the read
  gives \<^verbatim>\<open>undefined\<close> (\<open>None\<close>). A tag is a string.\<close>

fun member_type :: "jsval \<Rightarrow> error + string option" where
  "member_type Undefined = Inl TypeError"
| "member_type Null = Inl TypeError"
| "member_type (Elem a t ps) = Inr (Some t)"
| "member_type _ = Inr None"

fun member_props :: "jsval \<Rightarrow> error + props option" where
  "member_props Undefined = Inl TypeError"
| "member_props Null = Inl TypeError"
| "member_props (Elem a t ps) = Inr ps"
| "member_props _ = Inr None"

text \<open>\<^verbatim>\<open>c.length\<close> as \<^verbatim>\<open>Math.max\<close> sees it (\<open>None\<close> is a value that is not a number, which makes
  the maximum \<^verbatim>\<open>NaN\<close>), and \<^verbatim>\<open>c[i]\<close>.\<close>

fun js_length :: "jsval \<Rightarrow> error + nat option" where
  "js_length Undefined = Inl TypeError"
| "js_length Null = Inl TypeError"
| "js_length (Arr a xs) = Inr (Some (length xs))"
| "js_length (Leaf (TextS s)) = Inr (Some (length s))"
| "js_length (Fun a n) = Inr (Some n)"
| "js_length _ = Inr None"

fun js_index :: "jsval \<Rightarrow> nat \<Rightarrow> jsval" where
  "js_index (Arr a xs) i = (if i < length xs then xs ! i else Undefined)"
| "js_index (Leaf (TextS s)) i = (if i < length s then Leaf (TextS [s ! i]) else Undefined)"
| "js_index _ i = Undefined"

section \<open>Node construction\<close>

text \<open>
  \<^verbatim>\<open>function createElement(type, props, ...children) { return { type, props: { ...props, children } }; }\<close>

  The call allocates the array of the rest parameter and the returned object; the state it
  threads is the next free address. Spreading \<^verbatim>\<open>null\<close> or \<^verbatim>\<open>undefined\<close> (\<open>None\<close>) copies nothing.
\<close>

definition spread :: "props option \<Rightarrow> props" where
  "spread ps = (case ps of None \<Rightarrow> [] | Some qs \<Rightarrow> foldl (\<lambda>acc p. prop_set acc (fst p) (snd p)) [] qs)"

definition createElement :: "string \<Rightarrow> props option \<Rightarrow> jsval list \<Rightarrow> nat \<Rightarrow> jsval \<times> nat" where
  "createElement type props children a =
     (Elem (Suc a) type (Some (prop_set (spread props) ''children'' (Arr a children))), a + 2)"

section \<open>The differ\<close>

datatype prop_patch = SET_PROP string jsval | REMOVE_PROP string

datatype script =
    REMOVE
  | REPLACE jsval
  | TEXT scalar
  | UPDATE "prop_patch list" "script list"

text \<open>
  \<^verbatim>\<open>diffProps(oldProps = {}, newProps = {})\<close>: every key of the new object whose value is not
  \<^verbatim>\<open>===\<close> to the old one, then every key of the old object that the new one lacks.
\<close>

definition diffProps :: "props option \<Rightarrow> props option \<Rightarrow> prop_patch list" where
  "diffProps oldProps0 newProps0 =
     (let oldProps = (case oldProps0 of None \<Rightarrow> [] | Some ps \<Rightarrow> ps);
          newProps = (case newProps0 of None \<Rightarrow> [] | Some ps \<Rightarrow> ps)
      in [SET_PROP key (prop_get newProps key).
            key \<leftarrow> map fst newProps, \<not> strict_eq (prop_get oldProps key) (prop_get newProps key)]
         @ [REMOVE_PROP key. key \<leftarrow> map fst oldProps, \<not> prop_in key newProps])"

text \<open>\<^verbatim>\<open>props?.children || []\<close>; the identity of the fresh empty array is never observed.\<close>

definition children_or_empty :: "props option \<Rightarrow> jsval" where
  "children_or_empty props =
     (case props of
        None \<Rightarrow> Arr 0 []
      | Some ps \<Rightarrow> if truthy (prop_get ps ''children'') then prop_get ps ''children'' else Arr 0 [])"

text \<open>The default value \<^verbatim>\<open>[]\<close> of a parameter that is \<^verbatim>\<open>undefined\<close>.\<close>

definition default_array :: "jsval \<Rightarrow> jsval" where
  "default_array v = (if v = Undefined then Arr 0 [] else v)"

text \<open>\<^verbatim>\<open>Math.max(oldChildren.length, newChildren.length)\<close> as the bound of the loop
  \<^verbatim>\<open>for (let i = 0; i < maxLength; i++)\<close>: no iteration when the maximum is \<^verbatim>\<open>NaN\<close>.\<close>

definition max_length :: "jsval \<Rightarrow> jsval \<Rightarrow> error + nat" where
  "max_length oldChildren newChildren =
     (case js_length oldChildren of
        Inl e \<Rightarrow> Inl e
      | Inr m \<Rightarrow>
         (case js_length newChildren of
            Inl e \<Rightarrow> Inl e
          | Inr n \<Rightarrow>
             (case (m, n) of (Some a, Some b) \<Rightarrow> Inr (max a b) | _ \<Rightarrow> Inr 0)))"

text \<open>The results of the loop body in order; the first exception ends the loop.\<close>

fun collect :: "(error + 'a) list \<Rightarrow> error + 'a list" where
  "collect [] = Inr []"
| "collect (Inl e # rs) = Inl e"
| "collect (Inr x # rs) = (case collect rs of Inl e \<Rightarrow> Inl e | Inr xs \<Rightarrow> Inr (x # xs))"

text \<open>Case 3 of \<^verbatim>\<open>diff\<close>: \<^verbatim>\<open>typeof oldNode\<close> is \<^verbatim>\<open>"string"\<close> or \<^verbatim>\<open>"number"\<close> and
  \<^verbatim>\<open>oldNode !== newNode\<close>. It is reached with \<^verbatim>\<open>typeof oldNode === typeof newNode\<close>, so the
  new node is a string or a number exactly when the old one is.\<close>

definition text_changed :: "jsval \<Rightarrow> jsval \<Rightarrow> scalar option" where
  "text_changed oldNode newNode =
     (case newNode of
        Leaf s \<Rightarrow>
          if (typeof oldNode = ''string'' \<or> typeof oldNode = ''number'') \<and> \<not> strict_eq oldNode newNode
          then Some s else None
      | _ \<Rightarrow> None)"

text \<open>What bounds the recursion: the elements a children value can yield.\<close>

fun elements_size :: "jsval \<Rightarrow> nat" where
  "elements_size (Arr a xs) = size_list size xs"
| "elements_size (Leaf (TextS s)) = (if s = [] then 0 else 1)"
| "elements_size (Fun a n) = (if n = 0 then 0 else 1)"
| "elements_size _ = 0"

function diff :: "jsval \<Rightarrow> jsval \<Rightarrow> error + script"
  and diffChildren :: "jsval \<Rightarrow> jsval \<Rightarrow> error + script list" where
  "diff oldNode newNode =
     (if newNode = Null \<or> newNode = Undefined then Inr REMOVE
      else if typeof oldNode \<noteq> typeof newNode then Inr (REPLACE newNode)
      else (case member_type oldNode of
              Inl e \<Rightarrow> Inl e
            | Inr oldType \<Rightarrow>
               (case member_type newNode of
                  Inl e \<Rightarrow> Inl e
                | Inr newType \<Rightarrow>
                   if oldType \<noteq> newType then Inr (REPLACE newNode)
                   else (case text_changed oldNode newNode of
                           Some s \<Rightarrow> Inr (TEXT s)
                         | None \<Rightarrow>
                            (case member_props oldNode of
                               Inl e \<Rightarrow> Inl e
                             | Inr oldProps \<Rightarrow>
                                (case member_props newNode of
                                   Inl e \<Rightarrow> Inl e
                                 | Inr newProps \<Rightarrow>
                                    (case diffChildren (children_or_empty oldProps)
                                                       (children_or_empty newProps) of
                                       Inl e \<Rightarrow> Inl e
                                     | Inr childPatches \<Rightarrow>
                                        Inr (UPDATE (diffProps oldProps newProps) childPatches))))))))"
| "diffChildren oldChildren newChildren =
     (case max_length (default_array oldChildren) (default_array newChildren) of
        Inl e \<Rightarrow> Inl e
      | Inr maxLength \<Rightarrow>
          collect (map (\<lambda>i. diff (js_index (default_array oldChildren) i)
                                 (js_index (default_array newChildren) i))
                       [0..<maxLength]))"
  by pat_completeness auto

text \<open>Both functions terminate: every recursive call is on an element of a children value,
  which is smaller than the node that holds it.\<close>

lemma size_nth_less: "i < length xs \<Longrightarrow> size (xs ! i) < size_list size (xs :: jsval list)"
proof (induction xs arbitrary: i)
  case Nil
  then show ?case by simp
next
  case (Cons x xs)
  show ?case
  proof (cases i)
    case 0
    then show ?thesis by simp
  next
    case (Suc j)
    with Cons.prems have "j < length xs" by simp
    from Cons.IH[OF this] Suc show ?thesis by simp
  qed
qed

lemma size_js_index_less:
  assumes "js_length c = Inr (Some m)" "i < m"
  shows "size (js_index c i) < elements_size c"
proof (cases c)
  case (Arr a xs)
  with assms show ?thesis using size_nth_less[of i xs] by simp
next
  case (Leaf s)
  with assms show ?thesis by (cases s) auto
next
  case (Fun a n)
  with assms show ?thesis by simp
qed (use assms in simp_all)

lemma size_js_index_le: "size (js_index c i) \<le> elements_size c"
proof (cases c)
  case (Arr a xs)
  then show ?thesis using size_nth_less[of i xs] by (simp add: less_imp_le)
next
  case (Leaf s)
  then show ?thesis by (cases s) auto
qed simp_all

lemma size_prop_get: "size (prop_get ps k) \<le> size_list (size_prod (\<lambda>x. 0) size) ps"
  by (induction ps) auto

lemma elements_size_le: "elements_size v \<le> size v + (if truthy v then 1 else 0)"
proof (cases v)
  case (Leaf s)
  then show ?thesis by (cases s) auto
qed simp_all

lemma children_or_empty_size:
  assumes "member_props n = Inr ps"
  shows "elements_size (default_array (children_or_empty ps)) \<le> size n"
proof (cases ps)
  case None
  then show ?thesis by (simp add: children_or_empty_def default_array_def)
next
  case (Some qs)
  with assms obtain a t where n: "n = Elem a t (Some qs)"
    by (cases n) auto
  show ?thesis
  proof (cases "truthy (prop_get qs ''children'')")
    case True
    define c where "c = prop_get qs ''children''"
    from True Some have "default_array (children_or_empty ps) = c"
      by (auto simp: children_or_empty_def default_array_def c_def)
    moreover have "elements_size c \<le> size c + 1"
      using elements_size_le[of c] by (simp split: if_splits)
    moreover have "size c \<le> size_list (size_prod (\<lambda>x. 0) size) qs"
      unfolding c_def by (rule size_prop_get)
    ultimately show ?thesis using n by simp
  next
    case False
    with Some show ?thesis by (simp add: children_or_empty_def default_array_def)
  qed
qed

lemma max_length_index_size:
  assumes "max_length a b = Inr n" "i < n"
  shows "size (js_index a i) + size (js_index b i) < elements_size a + elements_size b"
proof -
  from assms obtain p q where pq: "js_length a = Inr (Some p)" "js_length b = Inr (Some q)" "n = max p q"
    by (auto simp: max_length_def split: sum.splits option.splits)
  with assms have "i < p \<or> i < q" by auto
  then show ?thesis
  proof
    assume "i < p"
    from size_js_index_less[OF pq(1) this] size_js_index_le[of b i] show ?thesis by simp
  next
    assume "i < q"
    from size_js_index_less[OF pq(2) this] size_js_index_le[of a i] show ?thesis by simp
  qed
qed

termination diff
proof (relation "measure (\<lambda>x. case x of
            Inl (old, new) \<Rightarrow> 2 * (size old + size new) + 1
          | Inr (oc, nc) \<Rightarrow> 2 * (elements_size (default_array oc) + elements_size (default_array nc)))",
       goal_cases)
  case 1
  show ?case by simp
next
  case (2 oldNode newNode oldType newType oldProps newProps)
  from children_or_empty_size[OF 2(7)] children_or_empty_size[OF 2(8)]
  show ?case by simp
next
  case (3 oc nc n i)
  then have "i < n" by simp
  from max_length_index_size[OF 3(1) this] show ?case by simp
qed

declare diff.simps [simp del] diffChildren.simps [simp del]

section \<open>The live tree\<close>

text \<open>
  The live tree belongs to the browser. The code uses it through a handful of operations,
  and the model gives each live node what these operations read and write: its kind (a text
  node with its text, or an element with its tag), the properties it holds after the
  assignments \<^verbatim>\<open>domNode[key] = value\<close>, and its child nodes in order. Only an element takes
  children.
\<close>

datatype node_kind = TextK string | ElementK string

datatype dom = Node (kind: node_kind) (assigned: props) (childNodes: "dom list")

text \<open>
  What an assignment \<^verbatim>\<open>domNode[key] = value\<close> does is the browser's business: a key the node
  does not define becomes a property holding the value, while \<^verbatim>\<open>textContent\<close> or
  \<^verbatim>\<open>innerHTML\<close> replace the children, \<^verbatim>\<open>id\<close> stores a string, and some setters throw. The
  materializer and the patcher therefore take the assignment as a parameter: a function
  from the node, the key and the value to the node after the assignment, or an exception.
\<close>

type_synonym assignment = "dom \<Rightarrow> string \<Rightarrow> jsval \<Rightarrow> error + dom"

text \<open>
  The assignment on a live node whose keys are all its own, but for \<^verbatim>\<open>children\<close>: on an
  element \<^verbatim>\<open>children\<close> is a read-only accessor and the assignment is ignored (the script
  is not in strict mode). This is what the browser does under a key the node does not
  define, and under an event handler key that is given a function.
\<close>

fun is_element :: "dom \<Rightarrow> bool" where
  "is_element (Node (ElementK t) ps cs) = True"
| "is_element (Node (TextK s) ps cs) = False"

definition dom_set :: assignment where
  "dom_set d key v =
     (if key = ''children'' \<and> is_element d then Inr d
      else Inr (Node (kind d) (prop_set (assigned d) key v) (childNodes d)))"

text \<open>A \<^verbatim>\<open>forEach\<close> whose body changes one live node: the first exception ends it.\<close>

fun each :: "('s \<Rightarrow> 'a \<Rightarrow> error + 's) \<Rightarrow> 's \<Rightarrow> 'a list \<Rightarrow> error + 's" where
  "each f s [] = Inr s"
| "each f s (x # xs) = (case f s x of Inl e \<Rightarrow> Inl e | Inr s' \<Rightarrow> each f s' xs)"

text \<open>Decimal digits of a number, as \<^verbatim>\<open>String(n)\<close> writes an integer.\<close>

definition digit_char :: "nat \<Rightarrow> char" where
  "digit_char d = ''0123456789'' ! d"

function digits :: "nat \<Rightarrow> string" where
  "digits n = (if n < 10 then [digit_char n] else digits (n div 10) @ [digit_char (n mod 10)])"
  by pat_completeness auto
termination
  by (relation "measure id") auto

declare digits.simps [simp del]

fun to_string :: "scalar \<Rightarrow> string" where
  "to_string (TextS s) = s"
| "to_string (NumS n) = (if n < 0 then CHR ''-'' # digits (nat (- n)) else digits (nat n))"
| "to_string NaN = ''NaN''"

text \<open>\<^verbatim>\<open>key.startsWith("on")\<close> and \<^verbatim>\<open>key.toLowerCase()\<close> (on ASCII letters).\<close>

definition startsWith_on :: "string \<Rightarrow> bool" where
  "startsWith_on key = (take 2 key = ''on'')"

definition lower_char :: "char \<Rightarrow> char" where
  "lower_char c =
     (case map_of (zip ''ABCDEFGHIJKLMNOPQRSTUVWXYZ'' ''abcdefghijklmnopqrstuvwxyz'') c of
        None \<Rightarrow> c
      | Some l \<Rightarrow> l)"

definition toLowerCase :: "string \<Rightarrow> string" where
  "toLowerCase s = map lower_char s"

text \<open>
  \<^verbatim>\<open>document.createTextNode(v)\<close> and \<^verbatim>\<open>document.createElement(tag)\<close>. A tag that is
  \<^verbatim>\<open>undefined\<close> is converted to the string \<^verbatim>\<open>"undefined"\<close>. The document is an HTML
  document: it throws on a tag that is not a name (a letter, \<^verbatim>\<open>_\<close> or \<^verbatim>\<open>:\<close>, then letters,
  digits, \<^verbatim>\<open>-\<close>, \<^verbatim>\<open>.\<close>, \<^verbatim>\<open>_\<close> and \<^verbatim>\<open>:\<close>; the bytes of characters beyond ASCII are taken as
  letters) and lower-cases the others.
\<close>

definition name_start_char :: "char \<Rightarrow> bool" where
  "name_start_char c =
     (c \<in> set ''abcdefghijklmnopqrstuvwxyzABCDEFGHIJKLMNOPQRSTUVWXYZ_:'' \<or> digit7 c)"

definition name_char :: "char \<Rightarrow> bool" where
  "name_char c = (name_start_char c \<or> c \<in> set ''0123456789-.'')"

fun valid_tag :: "string \<Rightarrow> bool" where
  "valid_tag [] = False"
| "valid_tag (c # cs) = (name_start_char c \<and> list_all name_char cs)"

definition createTextNode :: "scalar \<Rightarrow> dom" where
  "createTextNode v = Node (TextK (to_string v)) [] []"

definition document_createElement :: "string option \<Rightarrow> error + dom" where
  "document_createElement tag =
     (let name = (case tag of None \<Rightarrow> ''undefined'' | Some t \<Rightarrow> t)
      in if valid_tag name then Inr (Node (ElementK (toLowerCase name)) [] [])
         else Inl InvalidCharacterError)"

text \<open>\<^verbatim>\<open>parent.appendChild(child)\<close> and \<^verbatim>\<open>domNode.textContent = text\<close> (on an element the
  text replaces the children).\<close>

definition appendChild :: "dom \<Rightarrow> dom \<Rightarrow> error + dom" where
  "appendChild parent child =
     (case kind parent of
        TextK s \<Rightarrow> Inl HierarchyRequestError
      | ElementK t \<Rightarrow> Inr (Node (kind parent) (assigned parent) (childNodes parent @ [child])))"

definition set_textContent :: "dom \<Rightarrow> string \<Rightarrow> dom" where
  "set_textContent d text =
     (case kind d of
        TextK s \<Rightarrow> Node (TextK text) (assigned d) (childNodes d)
      | ElementK t \<Rightarrow> Node (kind d) (assigned d) (if text = [] then [] else [Node (TextK text) [] []]))"

section \<open>The materializer\<close>

text \<open>The key under which \<^verbatim>\<open>createRealDomNode\<close> assigns the attribute \<open>key\<close>: the lower-cased
  key for an event handler, no key for \<^verbatim>\<open>children\<close>, the key itself otherwise.\<close>

definition installed_key :: "string \<Rightarrow> string option" where
  "installed_key key =
     (if startsWith_on key then Some (toLowerCase key)
      else if key \<noteq> ''children'' then Some key
      else None)"

text \<open>One step of \<^verbatim>\<open>Object.keys(vdom.props).forEach((key) => ...)\<close> in
  \<^verbatim>\<open>createRealDomNode\<close>.\<close>

definition install_prop :: "assignment \<Rightarrow> props \<Rightarrow> dom \<Rightarrow> string \<Rightarrow> error + dom" where
  "install_prop assign ps domNode key =
     (case installed_key key of
        Some k \<Rightarrow> assign domNode k (prop_get ps key)
      | None \<Rightarrow> Inr domNode)"

text \<open>
  \<^verbatim>\<open>createRealDomNode(vdom)\<close> on a live tree with the assignment \<open>assign\<close>.
  \<^verbatim>\<open>vdom.props.children.forEach(...)\<close> needs an array: any other value has no \<^verbatim>\<open>forEach\<close> and
  the call throws.
\<close>

function createRealDomNode_on :: "assignment \<Rightarrow> jsval \<Rightarrow> error + dom" where
  "createRealDomNode_on assign vdom =
     (case vdom of
        Leaf s \<Rightarrow> Inr (createTextNode s)
      | _ \<Rightarrow>
         (case member_type vdom of
            Inl e \<Rightarrow> Inl e
          | Inr tag \<Rightarrow>
             (case document_createElement tag of
                Inl e \<Rightarrow> Inl e
              | Inr element \<Rightarrow>
                 (case member_props vdom of
                    Inl e \<Rightarrow> Inl e
                  | Inr None \<Rightarrow> Inr element
                  | Inr (Some ps) \<Rightarrow>
                     (case each (install_prop assign ps) element (map fst ps) of
                        Inl e \<Rightarrow> Inl e
                      | Inr domNode \<Rightarrow>
                         (case prop_get ps ''children'' of
                            Arr a children \<Rightarrow>
                              (case collect (map (createRealDomNode_on assign) children) of
                                 Inl e \<Rightarrow> Inl e
                               | Inr kids \<Rightarrow> each appendChild domNode kids)
                          | _ \<Rightarrow> Inl TypeError))))))"
  by pat_completeness auto

lemma size_children_member:
  assumes "prop_get ps ''children'' = Arr a cs" "c \<in> set cs"
  shows "size c < size (Elem b t (Some ps))"
proof -
  from assms(2) obtain i where "i < length cs" "cs ! i = c"
    by (auto simp: in_set_conv_nth)
  then have "size c < size_list size cs"
    using size_nth_less[of i cs] by simp
  moreover have "size (Arr a cs) \<le> size_list (size_prod (\<lambda>x. 0) size) ps"
    using size_prop_get[of ps "''children''"] assms(1) by simp
  ultimately show ?thesis by simp
qed

lemma size_children_of_node:
  assumes "member_props vdom = Inr (Some ps)" "prop_get ps ''children'' = Arr a cs" "c \<in> set cs"
  shows "size c < size vdom"
proof -
  from assms(1) obtain b t where "vdom = Elem b t (Some ps)"
    by (cases vdom) auto
  with size_children_member[OF assms(2,3)] show ?thesis by simp
qed

lemma children_of_node_smaller:
  assumes "member_props vdom = Inr (Some ps)" "prop_get ps ''children'' = Arr a cs" "c \<in> set cs"
  shows "((assign, c), assign, vdom) \<in> measure (\<lambda>(assign, vdom). size vdom)"
  using size_children_of_node[OF assms] by simp

termination createRealDomNode_on
  by (relation "measure (\<lambda>(assign, vdom). size vdom)")
     (simp, (rule children_of_node_smaller, simp, assumption, assumption)+)

declare createRealDomNode_on.simps [simp del]

section \<open>The patcher\<close>

text \<open>One step of \<^verbatim>\<open>propPatches.forEach((patch) => ...)\<close> in \<^verbatim>\<open>applyPropPatches\<close>.\<close>

fun applyPropPatch :: "assignment \<Rightarrow> dom \<Rightarrow> prop_patch \<Rightarrow> error + dom" where
  "applyPropPatch assign domNode (SET_PROP key v) =
     (if startsWith_on key then assign domNode (toLowerCase key) v
      else assign domNode key v)"
| "applyPropPatch assign domNode (REMOVE_PROP key) = assign domNode key Null"

text \<open>\<^verbatim>\<open>applyPropPatches(domNode, propPatches)\<close>; the live node may be absent (\<open>None\<close>), and
  then the first patch throws.\<close>

fun applyPropPatches_on :: "assignment \<Rightarrow> dom option \<Rightarrow> prop_patch list \<Rightarrow> error + dom option" where
  "applyPropPatches_on assign None [] = Inr None"
| "applyPropPatches_on assign None (p # ps) = Inl TypeError"
| "applyPropPatches_on assign (Some domNode) ps =
     (case each (applyPropPatch assign) domNode ps of
        Inl e \<Rightarrow> Inl e
      | Inr domNode' \<Rightarrow> Inr (Some domNode'))"

text \<open>
  \<^verbatim>\<open>patch(domNode, patches, parentNode)\<close>. At both call sites the live node is a child of
  the parent read by position (\<^verbatim>\<open>domNode.childNodes[i]\<close>, \<^verbatim>\<open>container.firstChild\<close>), absent
  when the parent has no child there; \<open>patch_on assign i patches parentNode\<close> is the call on
  the \<open>i\<close>-th child and returns the parent after the mutation. \<open>patchChildren_on\<close> is the loop
  \<^verbatim>\<open>patches.childPatches.forEach((childPatch, i) => patch(domNode.childNodes[i], childPatch, domNode))\<close>
  from index \<open>i\<close> on, which reads the children as the earlier steps left them.
\<close>

definition child_at :: "dom \<Rightarrow> nat \<Rightarrow> dom option" where
  "child_at parent i = (if i < length (childNodes parent) then Some (childNodes parent ! i) else None)"

definition with_children :: "dom \<Rightarrow> dom list \<Rightarrow> dom" where
  "with_children parent cs = Node (kind parent) (assigned parent) cs"

definition remove_at :: "nat \<Rightarrow> 'a list \<Rightarrow> 'a list" where
  "remove_at i xs = take i xs @ drop (Suc i) xs"

fun patch_on :: "assignment \<Rightarrow> nat \<Rightarrow> script \<Rightarrow> dom \<Rightarrow> error + dom"
  and patchChildren_on :: "assignment \<Rightarrow> nat \<Rightarrow> script list \<Rightarrow> dom \<Rightarrow> error + dom" where
  "patch_on assign i REMOVE parentNode =
     (case child_at parentNode i of
        None \<Rightarrow> Inl TypeError
      | Some domNode \<Rightarrow> Inr (with_children parentNode (remove_at i (childNodes parentNode))))"
| "patch_on assign i (REPLACE newNode) parentNode =
     (case createRealDomNode_on assign newNode of
        Inl e \<Rightarrow> Inl e
      | Inr newDomNode \<Rightarrow>
         (case child_at parentNode i of
            None \<Rightarrow> appendChild parentNode newDomNode
          | Some domNode \<Rightarrow>
              Inr (with_children parentNode ((childNodes parentNode)[i := newDomNode]))))"
| "patch_on assign i (TEXT newNode) parentNode =
     (case child_at parentNode i of
        None \<Rightarrow> Inl TypeError
      | Some domNode \<Rightarrow>
          Inr (with_children parentNode
                 ((childNodes parentNode)[i := set_textContent domNode (to_string newNode)])))"
| "patch_on assign i (UPDATE propPatches childPatches) parentNode =
     (case applyPropPatches_on assign (child_at parentNode i) propPatches of
        Inl e \<Rightarrow> Inl e
      | Inr None \<Rightarrow> if childPatches = [] then Inr parentNode else Inl TypeError
      | Inr (Some domNode) \<Rightarrow>
         (case patchChildren_on assign 0 childPatches domNode of
            Inl e \<Rightarrow> Inl e
          | Inr domNode' \<Rightarrow>
              Inr (with_children parentNode ((childNodes parentNode)[i := domNode']))))"
| "patchChildren_on assign i [] domNode = Inr domNode"
| "patchChildren_on assign i (childPatch # rest) domNode =
     (case patch_on assign i childPatch domNode of
        Inl e \<Rightarrow> Inl e
      | Inr domNode' \<Rightarrow> patchChildren_on assign (Suc i) rest domNode')"

text \<open>The three functions of the script, on the live tree whose assignment is \<open>dom_set\<close>.\<close>

abbreviation createRealDomNode :: "jsval \<Rightarrow> error + dom" where
  "createRealDomNode \<equiv> createRealDomNode_on dom_set"

abbreviation applyPropPatches :: "dom option \<Rightarrow> prop_patch list \<Rightarrow> error + dom option" where
  "applyPropPatches \<equiv> applyPropPatches_on dom_set"

abbreviation patch :: "nat \<Rightarrow> script \<Rightarrow> dom \<Rightarrow> error + dom" where
  "patch \<equiv> patch_on dom_set"

section \<open>The state store and the render driver\<close>

text \<open>
  The module-level variables of the second version of the script: \<^verbatim>\<open>currentVDOM\<close>,
  \<^verbatim>\<open>currentComponent\<close>, \<^verbatim>\<open>hookIndex\<close>, \<^verbatim>\<open>stateStorage\<close> and \<^verbatim>\<open>container\<close>. A component is
  a function, known by its identity; \<^verbatim>\<open>stateStorage\<close> is a \<^verbatim>\<open>Map\<close> from the current component
  (possibly \<^verbatim>\<open>null\<close>) to a hooks array. The hooks arrays are mutated in place and shared with
  the setters that captured them, so they live in a store, from address to contents, and
  \<^verbatim>\<open>stateStorage\<close> holds addresses. The last field is the next free address.
\<close>

record world =
  currentVDOM :: jsval
  currentComponent :: "nat option"
  hookIndex :: nat
  stateStorage :: "nat option \<rightharpoonup> nat"
  arrays :: "nat \<Rightarrow> jsval list"
  container :: dom
  next_address :: nat

text \<open>The body of a component runs on the world and returns the tree it produced.\<close>

type_synonym component = "world \<Rightarrow> jsval \<times> world"

text \<open>\<^verbatim>\<open>xs[i]\<close> and \<^verbatim>\<open>xs[i] = v\<close> on an array; writing past the end extends it.\<close>

definition array_get :: "jsval list \<Rightarrow> nat \<Rightarrow> jsval" where
  "array_get xs i = (if i < length xs then xs ! i else Undefined)"

definition array_set :: "jsval list \<Rightarrow> nat \<Rightarrow> jsval \<Rightarrow> jsval list" where
  "array_set xs i v =
     (if i < length xs then xs[i := v] else xs @ replicate (i - length xs) Undefined @ [v])"

text \<open>\<^verbatim>\<open>stateStorage.get(currentComponent) || []\<close>: the stored array, or a new empty one.\<close>

definition get_hooks :: "world \<Rightarrow> nat \<times> world" where
  "get_hooks w =
     (case stateStorage w (currentComponent w) of
        Some hooks \<Rightarrow> (hooks, w)
      | None \<Rightarrow>
          (next_address w,
           w\<lparr>arrays := (arrays w)(next_address w := []), next_address := Suc (next_address w)\<rparr>))"

text \<open>
  \<^verbatim>\<open>useState(initialValue)\<close> returns \<^verbatim>\<open>[stateValue, setState]\<close>. The setter is a closure over
  the array \<^verbatim>\<open>hooks\<close> alone (it reads \<^verbatim>\<open>hookIndex\<close> and \<^verbatim>\<open>currentComponent\<close> when it is
  called), so the model returns the address of that array in its place.
\<close>

definition useState :: "jsval \<Rightarrow> world \<Rightarrow> (jsval \<times> nat) \<times> world" where
  "useState initialValue w =
     (let (hooks, w1) = get_hooks w;
          w2 = (if hookIndex w1 \<ge> length (arrays w1 hooks)
                then w1\<lparr>arrays := (arrays w1)(hooks := arrays w1 hooks @ [initialValue])\<rparr>
                else w1);
          stateValue = array_get (arrays w2 hooks) (hookIndex w2);
          w3 = w2\<lparr>stateStorage := (stateStorage w2)(currentComponent w2 \<mapsto> hooks)\<rparr>
      in ((stateValue, hooks), w3))"

text \<open>The two branches of \<^verbatim>\<open>render\<close> on the live tree: first mount, or diff and patch of
  the container's first child.\<close>

definition commit :: "jsval \<Rightarrow> jsval \<Rightarrow> dom \<Rightarrow> error + dom" where
  "commit current vdom cont =
     (if \<not> truthy current then
        (case createRealDomNode vdom of
           Inl e \<Rightarrow> Inl e
         | Inr domNode \<Rightarrow> appendChild cont domNode)
      else
        (case diff current vdom of
           Inl e \<Rightarrow> Inl e
         | Inr patches \<Rightarrow> patch 0 patches cont))"

text \<open>
  \<^verbatim>\<open>render(component, container)\<close>, with the bodies of the components given by \<open>defs\<close>. Both
  callers pass the global container, which is the one of the world. Calling a component
  that is \<^verbatim>\<open>null\<close> throws. The driver runs on the live tree whose assignment is \<open>dom_set\<close>.
\<close>

definition render :: "(nat \<Rightarrow> component) \<Rightarrow> nat option \<Rightarrow> world \<Rightarrow> error + world" where
  "render defs component w =
     (let w1 = w\<lparr>currentComponent := component, hookIndex := 0\<rparr>
      in case component of
           None \<Rightarrow> Inl TypeError
         | Some c \<Rightarrow>
            (case defs c w1 of
               (vdom, w2) \<Rightarrow>
                 (case commit (currentVDOM w2) vdom (container w2) of
                    Inl e \<Rightarrow> Inl e
                  | Inr cont \<Rightarrow> Inr (w2\<lparr>container := cont, currentVDOM := vdom\<rparr>))))"

text \<open>The setter returned by \<^verbatim>\<open>useState\<close>, called with \<^verbatim>\<open>newValue\<close>; \<open>hooks\<close> is the array it
  captured.\<close>

definition setState :: "(nat \<Rightarrow> component) \<Rightarrow> nat \<Rightarrow> jsval \<Rightarrow> world \<Rightarrow> error + world" where
  "setState defs hooks newValue w =
     (let w1 = w\<lparr>arrays := (arrays w)(hooks := array_set (arrays w hooks) (hookIndex w) newValue)\<rparr>;
          w2 = w1\<lparr>stateStorage := (stateStorage w1)(currentComponent w1 \<mapsto> hooks)\<rparr>
      in render defs (currentComponent w2) w2)"

text \<open>The state of the module when the script has been loaded, with the element \<open>root\<close> of
  the page as container.\<close>

definition initial_world :: "dom \<Rightarrow> world" where
  "initial_world root =
     \<lparr>currentVDOM = Null, currentComponent = None, hookIndex = 0, stateStorage = Map.empty,
      arrays = (\<lambda>a. []), container = root, next_address = 1\<rparr>"

section \<open>Well-formed trees\<close>

text \<open>
  A node is a string, a number, or an element whose \<^verbatim>\<open>props\<close> hold under \<^verbatim>\<open>children\<close> an
  array of nodes: what \<^verbatim>\<open>createElement\<close> builds from nodes.
\<close>

function is_node :: "jsval \<Rightarrow> bool" where
  "is_node v =
     (case v of
        Leaf s \<Rightarrow> True
      | Elem a t (Some ps) \<Rightarrow>
          (case prop_get ps ''children'' of
             Arr b children \<Rightarrow> list_all is_node children
           | _ \<Rightarrow> False)
      | _ \<Rightarrow> False)"
  by pat_completeness auto
lemma child_of_node_smaller:
  assumes "member_props vdom = Inr (Some ps)" "prop_get ps ''children'' = Arr a cs" "c \<in> set cs"
  shows "(c, vdom) \<in> measure size"
  using size_children_of_node[OF assms] by simp

termination is_node
  by (relation "measure size") (simp, (rule child_of_node_smaller, simp, assumption, assumption)+)

declare is_node.simps [simp del]

text \<open>
  A producer that reads one state cell initialised to 0 and shows the value it read:
  \<^verbatim>\<open>function P() { const [count, setCount] = useState(0); return createElement("p", null, count); }\<close>
\<close>

definition single_state_producer :: component where
  "single_state_producer w =
     (case useState (Leaf (NumS 0)) w of
        ((count, setCount), w1) \<Rightarrow>
          (case createElement ''p'' None [count] (next_address w1) of
             (vdom, a) \<Rightarrow> (vdom, w1\<lparr>next_address := a\<rparr>)))"

text \<open>
  The same with a child that comes and goes, the usual conditional rendering:
  \<^verbatim>\<open>function T() { const [count, setCount] = useState(0);
    return count === 1 ? createElement("div", null, null)
                       : createElement("div", null, createElement("p", null, "on")); }\<close>
\<close>

definition toggling_producer :: component where
  "toggling_producer w =
     (case useState (Leaf (NumS 0)) w of
        ((count, setCount), w1) \<Rightarrow>
          (if strict_eq count (Leaf (NumS 1)) then
             (case createElement ''div'' None [Null] (next_address w1) of
                (vdom, a) \<Rightarrow> (vdom, w1\<lparr>next_address := a\<rparr>))
           else
             (case createElement ''p'' None [Leaf (TextS ''on'')] (next_address w1) of
                (child, a) \<Rightarrow>
                  (case createElement ''div'' None [child] a of
                     (vdom, b) \<Rightarrow> (vdom, w1\<lparr>next_address := b\<rparr>)))))"

text \<open>A children value that is an array of nodes.\<close>

definition node_array :: "jsval \<Rightarrow> bool" where
  "node_array v = (\<exists>a xs. v = Arr a xs \<and> list_all is_node xs)"

section \<open>Trees that leave the live children alone\<close>

text \<open>
  An assignment keeps the children under a key when, on every node and for every value, it
  returns a node with the same child list or throws. The attributes of an element are
  plain when every value is \<^verbatim>\<open>===\<close> to itself (none is \<^verbatim>\<open>NaN\<close>) and the assignment keeps
  the children under every key that \<^verbatim>\<open>createRealDomNode\<close> assigns; a tree is plain when
  the attributes of all its elements are.
\<close>

definition keeps_children :: "assignment \<Rightarrow> string \<Rightarrow> bool" where
  "keeps_children assign key =
     (\<forall>d v d'. assign d key v = Inr d' \<longrightarrow> childNodes d' = childNodes d)"

definition plain_props :: "assignment \<Rightarrow> props \<Rightarrow> bool" where
  "plain_props assign ps =
     list_all (\<lambda>key. strict_eq (prop_get ps key) (prop_get ps key)
                   \<and> (case installed_key key of
                        None \<Rightarrow> True
                      | Some k \<Rightarrow> keeps_children assign k))
              (map fst ps)"

function plain_tree :: "assignment \<Rightarrow> jsval \<Rightarrow> bool" where
  "plain_tree assign v =
     (case v of
        Elem a t (Some ps) \<Rightarrow>
          plain_props assign ps
          \<and> (case prop_get ps ''children'' of
               Arr b children \<Rightarrow> list_all (plain_tree assign) children
             | _ \<Rightarrow> True)
      | _ \<Rightarrow> True)"
  by pat_completeness auto
termination
  by (relation "measure (\<lambda>(assign, vdom). size vdom)")
     (simp, (rule children_of_node_smaller, simp, assumption, assumption)+)

declare plain_tree.simps [simp del]

text \<open>
  A live tree that takes \<^verbatim>\<open>textContent\<close> as the browser does when the value is a string or
  a number: the text replaces the children. Everything else is assigned as by \<open>dom_set\<close>.
\<close>

definition dom_set_text :: assignment where
  "dom_set_text d key v =
     (case v of
        Leaf s \<Rightarrow> if key = ''textContent'' then Inr (set_textContent d (to_string s))
                  else dom_set d key v
      | _ \<Rightarrow> dom_set d key v)"

section \<open>Properties of the property lists\<close>

lemma prop_get_set [simp]: "prop_get (prop_set ps k v) k = v"
  by (induction ps) auto

lemma prop_in_set [simp]: "prop_in k (prop_set ps k v)"
  by (induction ps) auto

lemma prop_get_set_other [simp]: "k' \<noteq> k \<Longrightarrow> prop_get (prop_set ps k v) k' = prop_get ps k'"
  by (induction ps) auto

lemma toLowerCase_onClick: "toLowerCase ''onClick'' = ''onclick''"
  by (simp add: toLowerCase_def lower_char_def)

lemma diffChildren_empty [simp]: "diffChildren (Arr a []) (Arr b []) = Inr []"
  by (simp add: diffChildren.simps default_array_def max_length_def)

lemma collect_Inr_iff: "collect rs = Inr xs \<longleftrightarrow> rs = map Inr xs"
proof (induction rs arbitrary: xs)
  case Nil
  then show ?case by auto
next
  case (Cons r rs)
  show ?case
  proof (cases r)
    case (Inl e)
    then show ?thesis by (cases xs) auto
  next
    case (Inr x)
    show ?thesis
    proof (cases xs)
      case Nil
      with Inr show ?thesis by (simp split: sum.splits)
    next
      case (Cons y ys)
      with Inr Cons.IH[of ys] show ?thesis by (auto split: sum.splits)
    qed
  qed
qed

lemma collect_all_Inr:
  "(\<And>r. r \<in> set rs \<Longrightarrow> \<exists>x. r = Inr x) \<Longrightarrow> \<exists>xs. collect rs = Inr xs"
proof (induction rs)
  case Nil
  then show ?case by simp
next
  case (Cons r rs)
  then obtain x where "r = Inr x" by auto
  moreover from Cons obtain xs where "collect rs = Inr xs" by auto
  ultimately show ?case by simp
qed

lemma upt_3: "[0..<3] = [0, 1, 2]"
  by (simp add: upt_rec)

section \<open>Node construction: the children entry\<close>

text \<open>
  C9. Whatever the tag, the attribute object (absent, or with a \<^verbatim>\<open>children\<close> key of its own) and
  the child values, the element built by \<^verbatim>\<open>createElement\<close> has a \<^verbatim>\<open>props\<close> object with a
  \<^verbatim>\<open>children\<close> entry, and the entry is the array of exactly the supplied children: an array
  even when there are none, never \<^verbatim>\<open>null\<close>.
\<close>

theorem createElement_children:
  "\<exists>b ps. fst (createElement type props children a) = Elem b type (Some ps)
        \<and> prop_in ''children'' ps \<and> prop_get ps ''children'' = Arr a children"
  by (simp add: createElement_def)

theorem createElement_children_witness:
  "\<exists>b ps. fst (createElement ''div'' (Some [(''children'', Null), (''id'', Leaf (TextS ''app''))]) [] 1)
             = Elem b ''div'' (Some ps)
        \<and> prop_in ''children'' ps \<and> prop_get ps ''children'' = Arr 1 []"
  using createElement_children
          [of "''div''" "Some [(''children'', Null), (''id'', Leaf (TextS ''app''))]" "[]" 1]
  by simp

section \<open>The differ on attributes\<close>

text \<open>
  C6. For the old attributes \<^verbatim>\<open>{a: 1, b: 2}\<close> and the new attributes \<^verbatim>\<open>{b: 3, c: 4}\<close>,
  \<^verbatim>\<open>diffProps\<close> returns exactly \<^verbatim>\<open>Set(b, 3)\<close>, \<^verbatim>\<open>Set(c, 4)\<close>, \<^verbatim>\<open>Unset(a)\<close>, in this order.
\<close>

theorem diffProps_example:
  "diffProps (Some [(''a'', Leaf (NumS 1)), (''b'', Leaf (NumS 2))])
             (Some [(''b'', Leaf (NumS 3)), (''c'', Leaf (NumS 4))])
   = [SET_PROP ''b'' (Leaf (NumS 3)), SET_PROP ''c'' (Leaf (NumS 4)), REMOVE_PROP ''a'']"
  by (simp add: diffProps_def)

text \<open>
  C1. The claim is that the attribute patches of an \<^verbatim>\<open>UPDATE\<close> never name the key
  \<^verbatim>\<open>children\<close>. \<^verbatim>\<open>diffProps\<close> compares every key of the new \<^verbatim>\<open>props\<close>, \<^verbatim>\<open>children\<close> included, and
  two calls of \<^verbatim>\<open>createElement\<close> hold two different arrays: diffing
  \<^verbatim>\<open>createElement("div", null)\<close> against a second \<^verbatim>\<open>createElement("div", null)\<close> gives the
  attribute patch \<^verbatim>\<open>SET_PROP children\<close>.
\<close>

theorem diff_sets_children:
  "(case createElement tag None [] a of
      (oldNode, a') \<Rightarrow>
        (case createElement tag None [] a' of
           (newNode, b) \<Rightarrow> diff oldNode newNode))
   = Inr (UPDATE [SET_PROP ''children'' (Arr (a + 2) [])] [])"
  by (simp add: createElement_def spread_def diff.simps text_changed_def children_or_empty_def
        diffProps_def)

section \<open>The differ on leaves\<close>

lemma patch_empty_update: "patch_on assign i (UPDATE [] []) parent = Inr parent"
proof (cases "child_at parent i")
  case None
  then show ?thesis by simp
next
  case (Some d)
  then have "childNodes parent ! i = d"
    by (simp add: child_at_def split: if_splits)
  then have "(childNodes parent)[i := d] = childNodes parent"
    by (metis list_update_id)
  with Some show ?thesis by (simp add: with_children_def)
qed

text \<open>
  C3, as stated: two leaves with different values give \<^verbatim>\<open>TEXT\<close>, two leaves with equal values
  give the empty \<^verbatim>\<open>UPDATE\<close>. It fails for a string against a number: the \<^verbatim>\<open>typeof\<close> test of
  case 2 comes first and gives \<^verbatim>\<open>REPLACE\<close>. It fails for \<^verbatim>\<open>NaN\<close> against \<^verbatim>\<open>NaN\<close>: the
  values are the same, \<^verbatim>\<open>oldNode !== newNode\<close> is true and the script is \<^verbatim>\<open>TEXT\<close>.
\<close>

theorem diff_leaves_counterexample:
  "TextS ''a'' \<noteq> NumS 1
   \<and> diff (Leaf (TextS ''a'')) (Leaf (NumS 1)) = Inr (REPLACE (Leaf (NumS 1)))
   \<and> diff (Leaf (TextS ''a'')) (Leaf (NumS 1)) \<noteq> Inr (TEXT (NumS 1))
   \<and> diff (Leaf NaN) (Leaf NaN) = Inr (TEXT NaN)
   \<and> diff (Leaf NaN) (Leaf NaN) \<noteq> Inr (UPDATE [] [])"
  by (simp add: diff.simps text_changed_def)

text \<open>
  C3, amended. For two leaves of the same kind (two strings, or two numbers), \<^verbatim>\<open>diff\<close>
  returns \<^verbatim>\<open>TEXT\<close> of the new value when they are not \<^verbatim>\<open>===\<close> (the values differ, or both are
  \<^verbatim>\<open>NaN\<close>); when they are \<^verbatim>\<open>===\<close> it returns an \<^verbatim>\<open>UPDATE\<close> with no attribute patch and no
  child script, and applying this script is a no-op: whatever the assignment of the live
  tree, the parent and the position, \<^verbatim>\<open>patch\<close> returns the parent as it was. For a string
  against a number (either way) \<^verbatim>\<open>diff\<close> returns \<^verbatim>\<open>REPLACE\<close> of the new leaf.
\<close>

theorem diff_leaves:
  "diff (Leaf old) (Leaf new) =
     Inr (if typeof (Leaf old) \<noteq> typeof (Leaf new) then REPLACE (Leaf new)
          else if \<not> strict_eq (Leaf old) (Leaf new) then TEXT new
          else UPDATE [] [])
   \<and> (strict_eq (Leaf old) (Leaf new) \<longrightarrow>
        diff (Leaf old) (Leaf new) = Inr (UPDATE [] [])
        \<and> (\<forall>assign i parent. patch_on assign i (UPDATE [] []) parent = Inr parent))"
proof -
  have script: "diff (Leaf old) (Leaf new) =
     Inr (if typeof (Leaf old) \<noteq> typeof (Leaf new) then REPLACE (Leaf new)
          else if \<not> strict_eq (Leaf old) (Leaf new) then TEXT new
          else UPDATE [] [])"
    by (cases old; cases new)
       (simp_all add: diff.simps text_changed_def children_or_empty_def diffProps_def)
  have same_kind: "typeof (Leaf old) = typeof (Leaf new)" if "strict_eq (Leaf old) (Leaf new)"
    using that by simp
  have noop: "\<forall>assign i parent. patch_on assign i (UPDATE [] []) parent = Inr parent"
    by (intro allI) (rule patch_empty_update)
  have equal: "diff (Leaf old) (Leaf new) = Inr (UPDATE [] [])"
    if "strict_eq (Leaf old) (Leaf new)"
    using script same_kind[OF that] that by auto
  from script equal noop show ?thesis
    by blast
qed

theorem diff_leaves_witness:
  "diff (Leaf (NumS 1)) (Leaf (NumS 2)) = Inr (TEXT (NumS 2))
   \<and> diff (Leaf (TextS ''a'')) (Leaf (TextS ''a'')) = Inr (UPDATE [] [])
   \<and> patch 0 (UPDATE [] []) (Node (ElementK ''div'') [] [Node (TextK ''a'') [] []])
       = Inr (Node (ElementK ''div'') [] [Node (TextK ''a'') [] []])"
proof -
  have "diff (Leaf (NumS 1)) (Leaf (NumS 2)) = Inr (TEXT (NumS 2))"
    using diff_leaves [of "NumS 1" "NumS 2"] by simp
  moreover have "strict_eq (Leaf (TextS ''a'')) (Leaf (TextS ''a''))"
    by simp
  with diff_leaves [of "TextS ''a''" "TextS ''a''"]
  have "diff (Leaf (TextS ''a'')) (Leaf (TextS ''a'')) = Inr (UPDATE [] [])"
    and "\<forall>assign i parent. patch_on assign i (UPDATE [] []) parent = Inr parent"
    by blast+
  ultimately show ?thesis by blast
qed

section \<open>The differ on an absent old node\<close>

text \<open>
  C10. The claim is that \<^verbatim>\<open>diff\<close> returns a script for every old value among leaf, element,
  \<^verbatim>\<open>null\<close> and \<^verbatim>\<open>undefined\<close>, and \<^verbatim>\<open>REPLACE\<close> for \<^verbatim>\<open>null\<close> against an element. With \<^verbatim>\<open>null\<close>
  against an element both \<^verbatim>\<open>typeof\<close> are \<^verbatim>\<open>"object"\<close>, so the code goes on to read
  \<^verbatim>\<open>oldNode.type\<close> of \<^verbatim>\<open>null\<close> and throws.
\<close>

theorem diff_null_element: "diff Null (Elem a t ps) = Inl TypeError"
  by (simp add: diff.simps)

text \<open>
  The input is one the render driver reaches: a child that was rendered, then returned as
  \<^verbatim>\<open>null\<close> (which \<^verbatim>\<open>diff\<close> turns into \<^verbatim>\<open>REMOVE\<close>), then returned again as an element, makes the
  third pass diff \<^verbatim>\<open>null\<close> against the element.
\<close>

lemma toggled_child_throws:
  "(case render (\<lambda>c. toggling_producer) (Some c) (initial_world (Node (ElementK ''div'') [] [])) of
      Inl e \<Rightarrow> False
    | Inr w1 \<Rightarrow>
        (case setState (\<lambda>c. toggling_producer) 1 (Leaf (NumS 1)) w1 of
           Inl e \<Rightarrow> False
         | Inr w2 \<Rightarrow> setState (\<lambda>c. toggling_producer) 1 (Leaf (NumS 2)) w2 = Inl TypeError))"
  by (simp add: render_def setState_def toggling_producer_def useState_def get_hooks_def
        initial_world_def createElement_def spread_def commit_def createRealDomNode_on.simps
        createTextNode_def document_createElement_def name_start_char_def name_char_def
        toLowerCase_def lower_char_def appendChild_def array_get_def array_set_def
        diff.simps diffChildren.simps text_changed_def children_or_empty_def default_array_def
        max_length_def diffProps_def install_prop_def installed_key_def startsWith_on_def dom_set_def
        child_at_def with_children_def remove_at_def Let_def)

section \<open>Attribute patches on event handlers\<close>

text \<open>
  C4. The claim is that \<^verbatim>\<open>Set(k, h)\<close> followed by \<^verbatim>\<open>Unset(k)\<close> leaves the handler slot of the
  normalised event name cleared. With \<^verbatim>\<open>k = "onClick"\<close> the first patch writes the property
  \<^verbatim>\<open>onclick\<close> and the second writes \<^verbatim>\<open>null\<close> to the property \<^verbatim>\<open>onClick\<close>: the slot
  \<^verbatim>\<open>onclick\<close> still holds the handler.
\<close>

theorem unset_keeps_handler:
  "\<exists>n'. applyPropPatches (Some n) [SET_PROP ''onClick'' (Fun a m), REMOVE_PROP ''onClick'']
            = Inr (Some n')
       \<and> prop_get (assigned n') (toLowerCase ''onClick'') = Fun a m
       \<and> prop_get (assigned n') ''onClick'' = Null"
  by (simp add: startsWith_on_def toLowerCase_onClick dom_set_def)

section \<open>The hook index\<close>

text \<open>
  C2. The claim is that the hook index is incremented by each state read, so that the
  \<open>i\<close>-th \<^verbatim>\<open>useState\<close> of a pass gets cell \<open>i\<close>. \<^verbatim>\<open>render\<close> resets the index to zero and
  \<^verbatim>\<open>useState\<close> never changes it: in a pass that reads \<^verbatim>\<open>useState(10)\<close> and then
  \<^verbatim>\<open>useState(20)\<close>, both reads use cell 0, the second returns 10 and the array has one cell.
\<close>

theorem hook_index_not_advanced:
  "(let w0 = (initial_world root)\<lparr>currentComponent := Some c, hookIndex := 0\<rparr>;
        ((v1, h1), w1) = useState (Leaf (NumS 10)) w0;
        ((v2, h2), w2) = useState (Leaf (NumS 20)) w1
    in v1 = Leaf (NumS 10) \<and> v2 = Leaf (NumS 10) \<and> hookIndex w1 = 0 \<and> hookIndex w2 = 0
       \<and> arrays w2 h2 = [Leaf (NumS 10)])"
  by (simp add: initial_world_def useState_def get_hooks_def array_get_def Let_def)

text \<open>Whatever the state and the initial value, a state read leaves the index as it was.\<close>

lemma useState_keeps_hookIndex: "hookIndex (snd (useState v w)) = hookIndex w"
  by (simp add: useState_def get_hooks_def Let_def split: option.splits prod.splits)

section \<open>The differ on well-formed trees\<close>

text \<open>On nodes, and on \<^verbatim>\<open>undefined\<close> for a child that one side lacks, \<^verbatim>\<open>diff\<close> returns a
  script.\<close>

lemma is_node_not_absent: "is_node v \<Longrightarrow> v \<noteq> Undefined \<and> v \<noteq> Null \<and> typeof v \<noteq> ''undefined''"
  by (cases v rule: typeof.cases) (auto simp: is_node.simps)

lemma diff_absent_old: "is_node v \<Longrightarrow> diff Undefined v = Inr (REPLACE v)"
  using is_node_not_absent[of v] by (auto simp: diff.simps)

lemma diff_absent_new [simp]: "diff v Undefined = Inr REMOVE"
  by (simp add: diff.simps)

lemma node_children:
  assumes "is_node n" "member_props n = Inr ps"
  shows "node_array (children_or_empty ps)"
proof (cases n)
  case (Leaf s)
  with assms show ?thesis by (auto simp: children_or_empty_def node_array_def)
next
  case (Elem a t qs)
  with assms show ?thesis
    by (auto simp: is_node.simps children_or_empty_def node_array_def split: option.splits jsval.splits)
qed (use assms in \<open>auto simp: is_node.simps\<close>)

lemma node_member_type: "is_node n \<Longrightarrow> \<exists>t. member_type n = Inr t"
  by (cases n) (auto simp: is_node.simps)

lemma node_member_props: "is_node n \<Longrightarrow> \<exists>ps. member_props n = Inr ps"
  by (cases n) (auto simp: is_node.simps)

lemma js_index_node_array:
  "node_array v \<Longrightarrow> is_node (js_index v i) \<or> js_index v i = Undefined"
  by (auto simp: node_array_def list_all_length)

lemma diff_total:
  "(is_node oldNode \<or> oldNode = Undefined) \<longrightarrow> (is_node newNode \<or> newNode = Undefined)
     \<longrightarrow> (\<exists>s. diff oldNode newNode = Inr s)"
  "node_array oldChildren \<longrightarrow> node_array newChildren
     \<longrightarrow> (\<exists>ss. diffChildren oldChildren newChildren = Inr ss)"
proof (induction oldNode newNode and oldChildren newChildren rule: diff_diffChildren.induct)
  case (1 oldNode newNode)
  show ?case
  proof (intro impI)
    assume old: "is_node oldNode \<or> oldNode = Undefined"
      and new: "is_node newNode \<or> newNode = Undefined"
    show "\<exists>s. diff oldNode newNode = Inr s"
    proof (cases "newNode = Undefined")
      case True
      then show ?thesis by simp
    next
      case False
      with new have nn: "is_node newNode" by simp
      note na = is_node_not_absent[OF nn]
      show ?thesis
      proof (cases "typeof oldNode = typeof newNode")
        case False
        with na show ?thesis by (simp add: diff.simps)
      next
        case True
        with na old have on: "is_node oldNode" by auto
        from node_member_type[OF on] obtain b where b: "member_type oldNode = Inr b" ..
        from node_member_type[OF nn] obtain ba where ba: "member_type newNode = Inr ba" ..
        from node_member_props[OF on] obtain bb where bb: "member_props oldNode = Inr bb" ..
        from node_member_props[OF nn] obtain bc where bc: "member_props newNode = Inr bc" ..
        show ?thesis
        proof (cases "b = ba \<and> text_changed oldNode newNode = None")
          case False
          with na True b ba show ?thesis
            by (auto simp: diff.simps[of oldNode newNode])
        next
          case both: True
          have "\<exists>ss. diffChildren (children_or_empty bb) (children_or_empty bc) = Inr ss"
            using "1.IH"[of b ba bb bc] na True b ba bb bc both
              node_children[OF on bb] node_children[OF nn bc]
            by simp
          then obtain ss where "diffChildren (children_or_empty bb) (children_or_empty bc) = Inr ss" ..
          with na True b ba bb bc both show ?thesis
            by (simp add: diff.simps[of oldNode newNode])
        qed
      qed
    qed
  qed
next
  case (2 oldChildren newChildren)
  show ?case
  proof (intro impI)
    assume oc: "node_array oldChildren" and nc: "node_array newChildren"
    then obtain a xs b ys where arrs: "oldChildren = Arr a xs" "newChildren = Arr b ys"
      by (auto simp: node_array_def)
    then have ml: "max_length (default_array oldChildren) (default_array newChildren)
                   = Inr (max (length xs) (length ys))"
      and da: "default_array oldChildren = oldChildren" "default_array newChildren = newChildren"
      by (simp_all add: max_length_def default_array_def)
    have all: "\<exists>s. r = Inr s"
      if "r \<in> set (map (\<lambda>i. diff (js_index oldChildren i) (js_index newChildren i))
                       [0..<max (length xs) (length ys)])" for r
    proof -
      from that obtain i where i: "i \<in> set [0..<max (length xs) (length ys)]"
        and r: "r = diff (js_index oldChildren i) (js_index newChildren i)"
        by auto
      from "2.IH"[OF ml i] js_index_node_array[OF oc, of i] js_index_node_array[OF nc, of i] da r
      show ?thesis by simp
    qed
    have "\<exists>ss. collect (map (\<lambda>i. diff (js_index oldChildren i) (js_index newChildren i))
                           [0..<max (length xs) (length ys)]) = Inr ss"
      by (rule collect_all_Inr) (rule all)
    with ml da show "\<exists>ss. diffChildren oldChildren newChildren = Inr ss"
      by (simp add: diffChildren.simps[of oldChildren newChildren])
  qed
qed

text \<open>
  C7. For two elements with the same tag whose children are nodes: diffing an old element
  with one child against a new element with three children gives three child scripts, the
  second and the third being \<^verbatim>\<open>REPLACE\<close> with the second and the third new child; diffing the
  element with three children against the one with one child gives three child scripts, the
  second and the third being \<^verbatim>\<open>REMOVE\<close>.
\<close>

theorem child_growth_shrink:
  assumes "is_node c" "is_node x" "is_node y" "is_node z"
    and "prop_get ps ''children'' = Arr i [c]"
    and "prop_get qs ''children'' = Arr j [x, y, z]"
  shows "(\<exists>pp s. diff (Elem a t (Some ps)) (Elem b t (Some qs)) = Inr (UPDATE pp [s, REPLACE y, REPLACE z]))
       \<and> (\<exists>pp s. diff (Elem b t (Some qs)) (Elem a t (Some ps)) = Inr (UPDATE pp [s, REMOVE, REMOVE]))"
proof -
  from diff_total(1)[of c x] assms obtain s1 where s1: "diff c x = Inr s1" by auto
  from diff_total(1)[of x c] assms obtain s2 where s2: "diff x c = Inr s2" by auto
  have grow: "diffChildren (Arr i [c]) (Arr j [x, y, z]) = Inr [s1, REPLACE y, REPLACE z]"
    using s1 diff_absent_old[OF assms(3)] diff_absent_old[OF assms(4)]
    by (simp add: diffChildren.simps default_array_def max_length_def upt_3)
  have shrink: "diffChildren (Arr j [x, y, z]) (Arr i [c]) = Inr [s2, REMOVE, REMOVE]"
    using s2 by (simp add: diffChildren.simps default_array_def max_length_def upt_3)
  have "diff (Elem a t (Some ps)) (Elem b t (Some qs))
        = Inr (UPDATE (diffProps (Some ps) (Some qs)) [s1, REPLACE y, REPLACE z])"
    using grow assms(5,6) by (simp add: diff.simps text_changed_def children_or_empty_def)
  moreover have "diff (Elem b t (Some qs)) (Elem a t (Some ps))
        = Inr (UPDATE (diffProps (Some qs) (Some ps)) [s2, REMOVE, REMOVE])"
    using shrink assms(5,6) by (simp add: diff.simps text_changed_def children_or_empty_def)
  ultimately show ?thesis by blast
qed

theorem child_growth_shrink_witness:
  "(\<exists>pp s. diff (Elem 2 ''ul'' (Some [(''children'', Arr 1 [Leaf (TextS ''a'')])]))
                 (Elem 6 ''ul'' (Some [(''children'', Arr 5 [Leaf (TextS ''a''), Leaf (NumS 2),
                                         Elem 4 ''li'' (Some [(''children'', Arr 3 [])])])]))
            = Inr (UPDATE pp [s, REPLACE (Leaf (NumS 2)),
                              REPLACE (Elem 4 ''li'' (Some [(''children'', Arr 3 [])]))]))
   \<and> (\<exists>pp s. diff (Elem 6 ''ul'' (Some [(''children'', Arr 5 [Leaf (TextS ''a''), Leaf (NumS 2),
                                         Elem 4 ''li'' (Some [(''children'', Arr 3 [])])])]))
                 (Elem 2 ''ul'' (Some [(''children'', Arr 1 [Leaf (TextS ''a'')])]))
            = Inr (UPDATE pp [s, REMOVE, REMOVE]))"
proof -
  have nodes: "is_node (Leaf (TextS ''a''))" "is_node (Leaf (NumS 2))"
    "is_node (Elem 4 ''li'' (Some [(''children'', Arr 3 [])]))"
    by (simp_all add: is_node.simps)
  show ?thesis
    using child_growth_shrink
            [OF nodes(1) nodes(1) nodes(2) nodes(3),
             of "[(''children'', Arr 1 [Leaf (TextS ''a'')])]" 1
                "[(''children'', Arr 5 [Leaf (TextS ''a''), Leaf (NumS 2),
                                        Elem 4 ''li'' (Some [(''children'', Arr 3 [])])])]" 5
                2 "''ul''" 6]
    by simp
qed


section \<open>Diffing a tree against itself\<close>

lemma prop_in_keys: "k \<in> set (map fst ps) \<Longrightarrow> prop_in k ps"
  by (induction ps) auto

lemma no_patches: "(\<And>k. k \<in> set ks \<Longrightarrow> P k) \<Longrightarrow> [f k. k \<leftarrow> ks, \<not> P k] = []"
  by (induction ks) auto

lemma diffProps_absent [simp]: "diffProps None None = []"
  by (simp add: diffProps_def)

lemma diffProps_plain:
  assumes "plain_props assign ps"
  shows "diffProps (Some ps) (Some ps) = []"
proof -
  from assms have all: "\<forall>k\<in>set (map fst ps). strict_eq (prop_get ps k) (prop_get ps k)
           \<and> (case installed_key k of None \<Rightarrow> True | Some k' \<Rightarrow> keeps_children assign k')"
    unfolding plain_props_def list_all_iff .
  have eq: "strict_eq (prop_get ps k) (prop_get ps k)" if "k \<in> set (map fst ps)" for k
    using all that by blast
  have sets: "[SET_PROP key (prop_get ps key). key \<leftarrow> map fst ps,
          \<not> strict_eq (prop_get ps key) (prop_get ps key)] = []"
    by (rule no_patches) (rule eq)
  have unsets: "[REMOVE_PROP key. key \<leftarrow> map fst ps, \<not> prop_in key ps] = []"
    by (rule no_patches) (rule prop_in_keys)
  have "diffProps (Some ps) (Some ps) =
          [SET_PROP key (prop_get ps key). key \<leftarrow> map fst ps,
             \<not> strict_eq (prop_get ps key) (prop_get ps key)]
          @ [REMOVE_PROP key. key \<leftarrow> map fst ps, \<not> prop_in key ps]"
    by (simp only: diffProps_def Let_def option.case)
  then show ?thesis
    by (simp only: sets unsets append_Nil)
qed

lemma each_appendChild:
  "each appendChild n kids = Inr d \<Longrightarrow> childNodes d = childNodes n @ kids"
proof (induction kids arbitrary: n)
  case Nil
  then show ?case by simp
next
  case (Cons k kids)
  from Cons.prems obtain n' where n': "appendChild n k = Inr n'" "each appendChild n' kids = Inr d"
    by (auto split: sum.splits)
  from n'(1) have "childNodes n' = childNodes n @ [k]"
    by (auto simp: appendChild_def split: node_kind.splits)
  with Cons.IH[OF n'(2)] show ?case by simp
qed

lemma each_install_keeps:
  assumes "each (install_prop assign ps) el keys = Inr domNode"
    and "\<And>key k. key \<in> set keys \<Longrightarrow> installed_key key = Some k \<Longrightarrow> keeps_children assign k"
  shows "childNodes domNode = childNodes el"
  using assms
proof (induction keys arbitrary: el)
  case Nil
  then show ?case by simp
next
  case (Cons key keys)
  from Cons.prems(1) obtain el' where
    el': "install_prop assign ps el key = Inr el'" "each (install_prop assign ps) el' keys = Inr domNode"
    by (auto split: sum.splits)
  have "childNodes el' = childNodes el"
  proof (cases "installed_key key")
    case None
    with el'(1) show ?thesis by (simp add: install_prop_def)
  next
    case (Some k)
    with Cons.prems(2)[of key k] have "keeps_children assign k" by simp
    with el'(1) Some show ?thesis by (auto simp: install_prop_def keeps_children_def)
  qed
  moreover have "childNodes domNode = childNodes el'"
    by (rule Cons.IH[OF el'(2)]) (rule Cons.prems(2), simp_all)
  ultimately show ?case by simp
qed

lemma created_element_childless: "document_createElement tag = Inr el \<Longrightarrow> childNodes el = []"
  by (auto simp: document_createElement_def Let_def split: if_splits)

lemma patchChildren_id:
  "(\<And>j. j < length ss \<Longrightarrow> patch_on assign (k + j) (ss ! j) d = Inr d)
     \<Longrightarrow> patchChildren_on assign k ss d = Inr d"
proof (induction ss arbitrary: k)
  case Nil
  show ?case by simp
next
  case (Cons s ss)
  from Cons.prems[of 0] have first: "patch_on assign k s d = Inr d" by simp
  have "patchChildren_on assign (Suc k) ss d = Inr d"
  proof (rule Cons.IH)
    fix j assume "j < length ss"
    with Cons.prems[of "Suc j"] show "patch_on assign (Suc k + j) (ss ! j) d = Inr d" by simp
  qed
  with first show ?case by simp
qed

lemma with_children_same:
  assumes "child_at p i = Some d"
  shows "with_children p ((childNodes p)[i := d]) = p"
proof -
  from assms have "childNodes p ! i = d"
    by (simp add: child_at_def split: if_splits)
  then have "(childNodes p)[i := d] = childNodes p"
    by (metis list_update_id)
  then show ?thesis
    by (simp add: with_children_def)
qed

lemma patch_update_id:
  assumes "child_at p i = Some d" "patchChildren_on assign 0 ss d = Inr d"
  shows "patch_on assign i (UPDATE [] ss) p = Inr p"
proof -
  have "patch_on assign i (UPDATE [] ss) p = Inr (with_children p ((childNodes p)[i := d]))"
    using assms by simp
  then show ?thesis
    by (simp only: with_children_same[OF assms(1)])
qed

lemma patch_text_same:
  assumes "child_at p i = Some (createTextNode s)"
  shows "patch_on assign i (TEXT s) p = Inr p"
proof -
  have "set_textContent (createTextNode s) (to_string s) = createTextNode s"
    by (simp add: set_textContent_def createTextNode_def)
  with assms have "patch_on assign i (TEXT s) p
                   = Inr (with_children p ((childNodes p)[i := createTextNode s]))"
    by simp
  then show ?thesis
    by (simp only: with_children_same[OF assms])
qed

lemma diff_self_no_props:
  assumes "t \<noteq> Undefined" "t \<noteq> Null" "member_props t = Inr None"
  shows "diff t t = Inr (if t = Leaf NaN then TEXT NaN else UPDATE [] [])"
  using assms
  by (cases t rule: typeof.cases)
     (simp_all add: diff.simps text_changed_def children_or_empty_def)

lemma self_diff_patch:
  "plain_tree assign t \<Longrightarrow> createRealDomNode_on assign t = Inr d \<Longrightarrow>
     \<exists>s. diff t t = Inr s \<and> (\<forall>p i. child_at p i = Some d \<longrightarrow> patch_on assign i s p = Inr p)"
proof (induction t arbitrary: d rule: measure_induct_rule[of size])
  case (less t)
  note mat = less.prems(2)
  from mat have present: "t \<noteq> Undefined" "t \<noteq> Null"
    by (auto simp: createRealDomNode_on.simps)
  then obtain pso where pso: "member_props t = Inr pso"
    by (cases t) auto
  show ?case
  proof (cases pso)
    case None
    show ?thesis
    proof (cases "t = Leaf NaN")
      case True
      with mat have "d = createTextNode NaN"
        by (simp add: createRealDomNode_on.simps)
      then have "patch_on assign i (TEXT NaN) p = Inr p" if "child_at p i = Some d" for p i
        using that by (simp only: patch_text_same)
      moreover from True have "diff t t = Inr (TEXT NaN)"
        by (simp add: diff.simps text_changed_def)
      ultimately show ?thesis by simp
    next
      case False
      with None present pso have "diff t t = Inr (UPDATE [] [])"
        by (simp add: diff_self_no_props)
      moreover have "patch_on assign i (UPDATE [] []) p = Inr p" if "child_at p i = Some d" for p i
        by (rule patch_update_id[OF that]) simp
      ultimately show ?thesis by simp
    qed
  next
    case (Some ps)
    with pso obtain a tag where t: "t = Elem a tag (Some ps)"
      by (cases t) auto
    from mat t obtain el where el: "document_createElement (Some tag) = Inr el"
      by (auto simp: createRealDomNode_on.simps split: sum.splits)
    from mat t el obtain domNode where
      domNode: "each (install_prop assign ps) el (map fst ps) = Inr domNode"
      by (auto simp: createRealDomNode_on.simps split: sum.splits)
    from mat t el domNode obtain b cs where cs: "prop_get ps ''children'' = Arr b cs"
      by (auto simp: createRealDomNode_on.simps split: jsval.splits)
    from mat t el domNode cs obtain kids where
      kids: "collect (map (createRealDomNode_on assign) cs) = Inr kids"
      and d: "each appendChild domNode kids = Inr d"
      by (auto simp: createRealDomNode_on.simps split: sum.splits)
    from less.prems(1) have "plain_tree assign (Elem a tag (Some ps))"
      by (simp only: t)
    with cs have "plain_props assign ps \<and> list_all (plain_tree assign) cs"
      by (simp add: plain_tree.simps[of assign "Elem a tag (Some ps)"])
    then have plain: "plain_props assign ps" and plain_cs: "list_all (plain_tree assign) cs"
      by simp_all
    have "childNodes domNode = childNodes el"
    proof (rule each_install_keeps[OF domNode])
      fix key k assume key: "key \<in> set (map fst ps)" "installed_key key = Some k"
      from plain have "\<forall>k\<in>set (map fst ps). strict_eq (prop_get ps k) (prop_get ps k)
           \<and> (case installed_key k of None \<Rightarrow> True | Some k' \<Rightarrow> keeps_children assign k')"
        unfolding plain_props_def list_all_iff .
      with key(1) have "case installed_key key of None \<Rightarrow> True | Some k' \<Rightarrow> keeps_children assign k'"
        by blast
      with key(2) show "keeps_children assign k" by simp
    qed
    with created_element_childless[OF el] each_appendChild[OF d]
    have dk: "childNodes d = kids" by simp
    from kids have mk: "map (createRealDomNode_on assign) cs = map Inr kids"
      by (simp add: collect_Inr_iff)
    then have len: "length kids = length cs"
      by (metis length_map)
    have each_kid: "createRealDomNode_on assign (cs ! j) = Inr (kids ! j)" if "j < length cs" for j
      using that mk len by (metis nth_map)
    have "\<exists>s. diff (cs ! j) (cs ! j) = Inr s
            \<and> (\<forall>p i. child_at p i = Some (kids ! j) \<longrightarrow> patch_on assign i s p = Inr p)"
      if "j < length cs" for j
    proof (rule less.IH)
      from that have mem: "cs ! j \<in> set cs" by simp
      from size_children_member[OF cs mem] t show "size (cs ! j) < size t" by simp
      from plain_cs mem show "plain_tree assign (cs ! j)" by (simp add: list_all_iff)
      from each_kid[OF that] show "createRealDomNode_on assign (cs ! j) = Inr (kids ! j)" .
    qed
    then obtain f where f: "\<And>j. j < length cs \<Longrightarrow> diff (cs ! j) (cs ! j) = Inr (f j)
            \<and> (\<forall>p i. child_at p i = Some (kids ! j) \<longrightarrow> patch_on assign i (f j) p = Inr p)"
      by metis
    define ss where "ss = map f [0..<length cs]"
    have "map (\<lambda>i. diff (js_index (Arr b cs) i) (js_index (Arr b cs) i)) [0..<length cs] = map Inr ss"
      using f by (simp add: ss_def)
    then have "diffChildren (Arr b cs) (Arr b cs) = Inr ss"
      by (simp add: diffChildren.simps default_array_def max_length_def collect_Inr_iff)
    with t cs diffProps_plain[OF plain] have diff_t: "diff t t = Inr (UPDATE [] ss)"
      by (simp add: diff.simps text_changed_def children_or_empty_def)
    have "patch_on assign i (UPDATE [] ss) p = Inr p" if p: "child_at p i = Some d" for p i
    proof (rule patch_update_id[OF p], rule patchChildren_id)
      fix j assume "j < length ss"
      then have j: "j < length cs" by (simp add: ss_def)
      with dk len have "child_at d j = Some (kids ! j)" by (simp add: child_at_def)
      with f[OF j] j show "patch_on assign (0 + j) (ss ! j) d = Inr d" by (simp add: ss_def)
    qed
    with diff_t show ?thesis by simp
  qed
qed

lemma dom_set_keeps_children: "keeps_children dom_set key"
  by (auto simp: keeps_children_def dom_set_def split: if_splits)


text \<open>
  C5, as stated: for any node tree, the script of the tree against itself leaves the
  materialized tree as it was. It fails for an attribute whose value is \<^verbatim>\<open>NaN\<close>: the value
  is not \<^verbatim>\<open>===\<close> to itself, \<^verbatim>\<open>diffProps\<close> emits \<^verbatim>\<open>SET_PROP\<close> for it, and with the attributes
  \<^verbatim>\<open>{onFoo: NaN, onfoo: f}\<close> the patch overwrites the property \<^verbatim>\<open>onfoo\<close>, which held \<^verbatim>\<open>f\<close>.
  It fails on a live tree that takes \<^verbatim>\<open>textContent\<close> as the browser does: the materialized
  \<^verbatim>\<open>div\<close> of \<^verbatim>\<open>{textContent: "hi"}\<close> with the child \<^verbatim>\<open>p\<close> holds the text before the \<^verbatim>\<open>p\<close>, the
  child scripts are applied by position, and the script of the \<^verbatim>\<open>p\<close> throws on the text.
\<close>

theorem self_diff_counterexample:
  "is_node (Elem 2 ''div'' (Some [(''onFoo'', Leaf NaN), (''onfoo'', Fun 7 0), (''children'', Arr 1 [])]))
   \<and> createRealDomNode
         (Elem 2 ''div'' (Some [(''onFoo'', Leaf NaN), (''onfoo'', Fun 7 0), (''children'', Arr 1 [])]))
       = Inr (Node (ElementK ''div'') [(''onfoo'', Fun 7 0)] [])
   \<and> diff (Elem 2 ''div'' (Some [(''onFoo'', Leaf NaN), (''onfoo'', Fun 7 0), (''children'', Arr 1 [])]))
           (Elem 2 ''div'' (Some [(''onFoo'', Leaf NaN), (''onfoo'', Fun 7 0), (''children'', Arr 1 [])]))
       = Inr (UPDATE [SET_PROP ''onFoo'' (Leaf NaN)] [])
   \<and> patch 0 (UPDATE [SET_PROP ''onFoo'' (Leaf NaN)] [])
         (Node (ElementK ''section'') [] [Node (ElementK ''div'') [(''onfoo'', Fun 7 0)] []])
       = Inr (Node (ElementK ''section'') [] [Node (ElementK ''div'') [(''onfoo'', Leaf NaN)] []])
   \<and> is_node (Elem 8 ''div'' (Some [(''textContent'', Leaf (TextS ''hi'')),
          (''children'', Arr 7 [Elem 6 ''p'' (Some [(''children'',
             Arr 5 [Elem 4 ''b'' (Some [(''children'', Arr 3 [Leaf (TextS ''x'')])])])])])]))
   \<and> createRealDomNode_on dom_set_text
         (Elem 8 ''div'' (Some [(''textContent'', Leaf (TextS ''hi'')),
          (''children'', Arr 7 [Elem 6 ''p'' (Some [(''children'',
             Arr 5 [Elem 4 ''b'' (Some [(''children'', Arr 3 [Leaf (TextS ''x'')])])])])])]))
       = Inr (Node (ElementK ''div'') []
                [Node (TextK ''hi'') [] [],
                 Node (ElementK ''p'') [] [Node (ElementK ''b'') [] [Node (TextK ''x'') [] []]]])
   \<and> diff (Elem 8 ''div'' (Some [(''textContent'', Leaf (TextS ''hi'')),
          (''children'', Arr 7 [Elem 6 ''p'' (Some [(''children'',
             Arr 5 [Elem 4 ''b'' (Some [(''children'', Arr 3 [Leaf (TextS ''x'')])])])])])]))
           (Elem 8 ''div'' (Some [(''textContent'', Leaf (TextS ''hi'')),
          (''children'', Arr 7 [Elem 6 ''p'' (Some [(''children'',
             Arr 5 [Elem 4 ''b'' (Some [(''children'', Arr 3 [Leaf (TextS ''x'')])])])])])]))
       = Inr (UPDATE [] [UPDATE [] [UPDATE [] [UPDATE [] []]]])
   \<and> patch_on dom_set_text 0 (UPDATE [] [UPDATE [] [UPDATE [] [UPDATE [] []]]])
         (Node (ElementK ''section'') []
            [Node (ElementK ''div'') []
               [Node (TextK ''hi'') [] [],
                Node (ElementK ''p'') [] [Node (ElementK ''b'') [] [Node (TextK ''x'') [] []]]]])
       = Inl TypeError"
  by (simp add: is_node.simps createRealDomNode_on.simps createTextNode_def
        document_createElement_def name_start_char_def name_char_def toLowerCase_def
        lower_char_def appendChild_def install_prop_def installed_key_def startsWith_on_def
        dom_set_def dom_set_text_def set_textContent_def diff.simps diffChildren.simps
        text_changed_def children_or_empty_def default_array_def max_length_def diffProps_def
        child_at_def with_children_def Let_def)

text \<open>
  C5, amended. Let the tree be plain for the assignment of the live tree: every attribute
  value is \<^verbatim>\<open>===\<close> to itself (none is \<^verbatim>\<open>NaN\<close>), and under every attribute key the
  assignment leaves the child list of the live node as it is (as it does under any key
  the node does not define itself). If the tree can be materialized, \<^verbatim>\<open>diff\<close> of the tree
  against itself returns a script, and applying this script to the materialized live
  node, wherever it sits in its parent, leaves the parent and all its descendants as
  they were: same tags, same properties, same text, same children in the same order.
\<close>

theorem self_diff_is_noop:
  assumes "plain_tree assign t"
    and "createRealDomNode_on assign t = Inr d"
    and "child_at parent i = Some d"
  shows "\<exists>s. diff t t = Inr s \<and> patch_on assign i s parent = Inr parent"
  using self_diff_patch[OF assms(1,2)] assms(3) by blast

theorem self_diff_is_noop_witness:
  "\<exists>s. diff (Elem 4 ''div'' (Some [(''id'', Leaf (TextS ''app'')),
               (''children'', Arr 3 [Elem 2 ''h1'' (Some [(''onClick'', Fun 9 0),
                  (''children'', Arr 1 [Leaf (TextS ''Hello'')])])])]))
            (Elem 4 ''div'' (Some [(''id'', Leaf (TextS ''app'')),
               (''children'', Arr 3 [Elem 2 ''h1'' (Some [(''onClick'', Fun 9 0),
                  (''children'', Arr 1 [Leaf (TextS ''Hello'')])])])])) = Inr s
      \<and> patch 0 s
           (Node (ElementK ''section'') []
              [Node (ElementK ''div'') [(''id'', Leaf (TextS ''app''))]
                 [Node (ElementK ''h1'') [(''onclick'', Fun 9 0)] [Node (TextK ''Hello'') [] []]]])
         = Inr (Node (ElementK ''section'') []
              [Node (ElementK ''div'') [(''id'', Leaf (TextS ''app''))]
                 [Node (ElementK ''h1'') [(''onclick'', Fun 9 0)] [Node (TextK ''Hello'') [] []]]])"
proof -
  have plain: "plain_tree dom_set
     (Elem 4 ''div'' (Some [(''id'', Leaf (TextS ''app'')),
               (''children'', Arr 3 [Elem 2 ''h1'' (Some [(''onClick'', Fun 9 0),
                  (''children'', Arr 1 [Leaf (TextS ''Hello'')])])])]))"
    by (simp add: plain_tree.simps plain_props_def installed_key_def startsWith_on_def
          dom_set_keeps_children)
  have materialized: "createRealDomNode
     (Elem 4 ''div'' (Some [(''id'', Leaf (TextS ''app'')),
               (''children'', Arr 3 [Elem 2 ''h1'' (Some [(''onClick'', Fun 9 0),
                  (''children'', Arr 1 [Leaf (TextS ''Hello'')])])])]))
     = Inr (Node (ElementK ''div'') [(''id'', Leaf (TextS ''app''))]
                 [Node (ElementK ''h1'') [(''onclick'', Fun 9 0)] [Node (TextK ''Hello'') [] []]])"
    by (simp add: createRealDomNode_on.simps createTextNode_def
          document_createElement_def name_start_char_def name_char_def toLowerCase_def
          lower_char_def appendChild_def install_prop_def installed_key_def startsWith_on_def
          dom_set_def Let_def)
  have child: "child_at (Node (ElementK ''section'') []
              [Node (ElementK ''div'') [(''id'', Leaf (TextS ''app''))]
                 [Node (ElementK ''h1'') [(''onclick'', Fun 9 0)] [Node (TextK ''Hello'') [] []]]]) 0
        = Some (Node (ElementK ''div'') [(''id'', Leaf (TextS ''app''))]
                 [Node (ElementK ''h1'') [(''onclick'', Fun 9 0)] [Node (TextK ''Hello'') [] []]])"
    by (simp add: child_at_def)
  show ?thesis
    by (rule self_diff_is_noop[OF plain materialized child])
qed

section \<open>State cells across render passes\<close>

text \<open>
  C8. A producer reads one state cell initialised to 0 and shows the value it read. The
  first render pass reads 0; the setter, called with 1, starts a second pass, which reads
  1; called with 2, it starts a third pass, which reads 2. Every pass ends without error.
\<close>

theorem state_cell_persistence:
  "(case render (\<lambda>c. single_state_producer) (Some c) (initial_world (Node (ElementK ''div'') [] [])) of
      Inl e \<Rightarrow> False
    | Inr w1 \<Rightarrow>
        currentVDOM w1 = Elem 3 ''p'' (Some [(''children'', Arr 2 [Leaf (NumS 0)])])
        \<and> stateStorage w1 (Some c) = Some 1
        \<and> (case setState (\<lambda>c. single_state_producer) 1 (Leaf (NumS 1)) w1 of
             Inl e \<Rightarrow> False
           | Inr w2 \<Rightarrow>
               currentVDOM w2 = Elem 5 ''p'' (Some [(''children'', Arr 4 [Leaf (NumS 1)])])
               \<and> (case setState (\<lambda>c. single_state_producer) 1 (Leaf (NumS 2)) w2 of
                    Inl e \<Rightarrow> False
                  | Inr w3 \<Rightarrow>
                      currentVDOM w3 = Elem 7 ''p'' (Some [(''children'', Arr 6 [Leaf (NumS 2)])]))))"
  by (simp add: render_def setState_def single_state_producer_def useState_def get_hooks_def
        initial_world_def createElement_def spread_def commit_def createRealDomNode_on.simps
        createTextNode_def document_createElement_def name_start_char_def name_char_def
        toLowerCase_def lower_char_def appendChild_def array_get_def array_set_def
        diff.simps diffChildren.simps text_changed_def children_or_empty_def default_array_def
        max_length_def diffProps_def install_prop_def installed_key_def startsWith_on_def
        dom_set_def child_at_def with_children_def set_textContent_def Let_def digits.simps
        digit_char_def)

end
